theory Spec2Isabelle
  imports Main "HOL-Library.AList"
begin

section \<open>Values, documents and the observable world\<close>

text \<open>
  The server (\<^verbatim>\<open>server.js\<close>) talks to three collaborators: an RPC endpoint with the
  ZirCats contract behind it, a MongoDB database \<^verbatim>\<open>zircats\<close> with the collections
  \<^verbatim>\<open>svgs\<close> and \<^verbatim>\<open>catTexts\<close>, and the HTTP client of a request. Every \<^verbatim>\<open>await\<close> of the
  source is an effect on them. The model threads a world through the code: the
  database contents and the list of effects performed so far, in order.
\<close>

datatype jsval =
    Undefined
  | Null
  | Str string
  | Date nat
  | Obj "(string \<times> jsval) list"

text \<open>A MongoDB document is a list of fields in insertion order. The store's own
  \<^verbatim>\<open>_id\<close> key is left out: documents are told apart by position in their collection.
  A collection may hold documents of any shape; \<^verbatim>\<open>svgs\<close> also receives the documents
  of \<^verbatim>\<open>POST /publish-svg\<close>, which have no \<^verbatim>\<open>tokenId\<close>.\<close>

type_synonym doc = "(string \<times> jsval) list"

datatype error = NetworkError | CallException | MongoError | TypeError

datatype level = Info | Err

datatype event =
    RpcGetNetwork
  | RpcTotalSupply
  | RpcTokenByIndex nat
  | RpcTokenURI nat
  | DbFindOne string doc
  | DbInsertOne string doc
  | DbUpdateOne string doc doc
  | Console level string "error option"
  | Respond nat jsval

record world =
  db :: "string \<Rightarrow> doc list"
  trace :: "event list"

text \<open>The state of the contract, as its three view functions report it.
  \<open>None\<close> is a call that reverts.\<close>

record contract =
  totalSupply :: nat
  tokenByIndex :: "nat \<Rightarrow> nat option"
  tokenURI :: "nat \<Rightarrow> string option"

text \<open>
  What the code does not control. \<open>faults env n\<close> says whether the I/O operation
  issued when \<open>n\<close> effects have been performed fails in transport (RPC endpoint or
  store unreachable); \<open>clock env n\<close> is what \<^verbatim>\<open>new Date()\<close> reads at that moment;
  \<open>b64_utf8 env s\<close> is Node's \<^verbatim>\<open>Buffer.from(s, "base64").toString("utf-8")\<close> for a string
  \<open>s\<close>, a library function that does not throw on strings. Every I/O operation is
  taken to settle: its promise resolves or rejects.

  The loop counter of the source is a JavaScript number and ethers rejects a number
  that is not a safe integer; such a call is one of the calls that fail, which
  \<open>tokenByIndex\<close> and \<open>faults\<close> are free to do at any index.
\<close>

record env =
  contract :: contract
  faults :: "nat \<Rightarrow> bool"
  clock :: "nat \<Rightarrow> nat"
  b64_utf8 :: "string \<Rightarrow> string"

type_synonym 'a io = "world \<Rightarrow> (error + 'a) \<times> world"

definition emit :: "event \<Rightarrow> world \<Rightarrow> world" where
  "emit e w = w\<lparr>trace := trace w @ [e]\<rparr>"

definition io_fault :: "env \<Rightarrow> world \<Rightarrow> bool" where
  "io_fault env w = faults env (length (trace w))"

definition console_log :: "string \<Rightarrow> world \<Rightarrow> world" where
  "console_log msg w = emit (Console Info msg None) w"

definition console_error :: "string \<Rightarrow> error option \<Rightarrow> world \<Rightarrow> world" where
  "console_error msg e w = emit (Console Err msg e) w"

text \<open>\<^verbatim>\<open>const x = await m; rest\<close>: a rejected promise throws, and what was done
  before the throw stays done.\<close>

definition await :: "'a io \<Rightarrow> ('a \<Rightarrow> 'b io) \<Rightarrow> 'b io" where
  "await m f w = (case m w of (Inl e, w') \<Rightarrow> (Inl e, w') | (Inr x, w') \<Rightarrow> f x w')"

text \<open>What happened between two worlds, and which documents \<^verbatim>\<open>svgs\<close> gained.\<close>

definition new_events :: "world \<Rightarrow> world \<Rightarrow> event list" where
  "new_events w w' = drop (length (trace w)) (trace w')"

definition inserted :: "world \<Rightarrow> world \<Rightarrow> doc list" where
  "inserted w w' = drop (length (db w ''svgs'')) (db w' ''svgs'')"

section \<open>Strings\<close>

text \<open>\<^verbatim>\<open>tokenId.toString()\<close> of a bigint: its decimal digits.\<close>

definition digit :: "nat \<Rightarrow> char" where
  "digit n = ''0123456789'' ! n"

fun toString :: "nat \<Rightarrow> string" where
  "toString n = (if n < 10 then [digit n] else toString (n div 10) @ [digit (n mod 10)])"

declare toString.simps [simp del]

text \<open>\<^verbatim>\<open>s.split(",")\<close>: the pieces between the separators, never an empty array.\<close>

fun js_split :: "char \<Rightarrow> string \<Rightarrow> string list" where
  "js_split sep [] = [[]]"
| "js_split sep (c # cs) =
     (if c = sep then [] # js_split sep cs
      else (case js_split sep cs of [] \<Rightarrow> [[c]] | s # ss \<Rightarrow> (c # s) # ss))"

text \<open>\<^verbatim>\<open>xs[i]\<close> on an array: \<^verbatim>\<open>undefined\<close> out of range.\<close>

definition js_index :: "'a list \<Rightarrow> nat \<Rightarrow> 'a option" where
  "js_index xs i = (if i < length xs then Some (xs ! i) else None)"

section \<open>The chain reader\<close>

definition getProvider :: "env \<Rightarrow> world \<Rightarrow> unit option \<times> world" where
  "getProvider env w =
     (let w1 = emit RpcGetNetwork w in
      if io_fault env w
      then (None, console_error ''Failed to connect to the network:'' (Some NetworkError) w1)
      else (Some (), console_log ''Connected to the network'' w1))"

definition call_totalSupply :: "env \<Rightarrow> nat io" where
  "call_totalSupply env w =
     (let w1 = emit RpcTotalSupply w in
      if io_fault env w then (Inl NetworkError, w1)
      else (Inr (totalSupply (contract env)), w1))"

definition call_tokenByIndex :: "env \<Rightarrow> nat \<Rightarrow> nat io" where
  "call_tokenByIndex env i w =
     (let w1 = emit (RpcTokenByIndex i) w in
      if io_fault env w then (Inl NetworkError, w1)
      else (case tokenByIndex (contract env) i of
              None \<Rightarrow> (Inl CallException, w1)
            | Some tokenId \<Rightarrow> (Inr tokenId, w1)))"

definition call_tokenURI :: "env \<Rightarrow> nat \<Rightarrow> string io" where
  "call_tokenURI env tokenId w =
     (let w1 = emit (RpcTokenURI tokenId) w in
      if io_fault env w then (Inl NetworkError, w1)
      else (case tokenURI (contract env) tokenId of
              None \<Rightarrow> (Inl CallException, w1)
            | Some uri \<Rightarrow> (Inr uri, w1)))"

section \<open>The store\<close>

text \<open>An equality filter \<^verbatim>\<open>{k: v}\<close> matches a document that has \<open>v\<close> under \<open>k\<close>.\<close>

definition matches :: "doc \<Rightarrow> doc \<Rightarrow> bool" where
  "matches flt d = list_all (\<lambda>(k, v). map_of d k = Some v) flt"

text \<open>The documents of a collection that the filter \<^verbatim>\<open>{tokenId: k}\<close> matches.\<close>

definition keyed :: "string \<Rightarrow> doc list \<Rightarrow> doc list" where
  "keyed k c = filter (matches [(''tokenId'', Str k)]) c"

definition field :: "doc \<Rightarrow> string \<Rightarrow> jsval" where
  "field d k = (case map_of d k of None \<Rightarrow> Undefined | Some v \<Rightarrow> v)"

definition findOne :: "env \<Rightarrow> string \<Rightarrow> doc \<Rightarrow> doc option io" where
  "findOne env c flt w =
     (let w1 = emit (DbFindOne c flt) w in
      if io_fault env w then (Inl MongoError, w1)
      else (Inr (find (matches flt) (db w c)), w1))"

definition insertOne :: "env \<Rightarrow> string \<Rightarrow> doc \<Rightarrow> unit io" where
  "insertOne env c d w =
     (let w1 = emit (DbInsertOne c d) w in
      if io_fault env w then (Inl MongoError, w1)
      else (Inr (), w1\<lparr>db := (db w)(c := db w c @ [d])\<rparr>))"

text \<open>\<^verbatim>\<open>$set\<close>: each field replaced where the document has it, added otherwise.\<close>

definition set_fields :: "doc \<Rightarrow> doc \<Rightarrow> doc" where
  "set_fields upd d = fold (\<lambda>(k, v). AList.update k v) upd d"

fun update_first :: "(doc \<Rightarrow> bool) \<Rightarrow> (doc \<Rightarrow> doc) \<Rightarrow> doc list \<Rightarrow> doc list option" where
  "update_first P f [] = None"
| "update_first P f (d # ds) =
     (if P d then Some (f d # ds) else map_option ((#) d) (update_first P f ds))"

text \<open>\<^verbatim>\<open>updateOne(filter, {$set: upd}, {upsert: true})\<close>: the first match is updated;
  without a match a document is made from the filter and the update.\<close>

definition updateOne :: "env \<Rightarrow> string \<Rightarrow> doc \<Rightarrow> doc \<Rightarrow> unit io" where
  "updateOne env c flt upd w =
     (let w1 = emit (DbUpdateOne c flt upd) w in
      if io_fault env w then (Inl MongoError, w1)
      else (Inr (), w1\<lparr>db := (db w)(c :=
              (case update_first (matches flt) (set_fields upd) (db w c) of
                 Some ds \<Rightarrow> ds
               | None \<Rightarrow> db w c @ [set_fields upd flt]))\<rparr>))"

section \<open>The Reconciler: \<^verbatim>\<open>fetchAndStoreSVGs\<close>\<close>

text \<open>The body of the \<^verbatim>\<open>for\<close> loop, lines 71 to 93, for index \<open>i\<close>.\<close>

definition loop_body :: "env \<Rightarrow> nat \<Rightarrow> unit io" where
  "loop_body env i =
     await (call_tokenByIndex env i) (\<lambda>tokenId.
     await (call_tokenURI env tokenId) (\<lambda>uri.
     await (findOne env ''svgs'' [(''tokenId'', Str (toString tokenId))]) (\<lambda>existingToken.
       case existingToken of
         Some _ \<Rightarrow> (\<lambda>w. (Inr (),
            console_log (''Token ID '' @ toString tokenId @ '' already exists, skipping.'') w))
       | None \<Rightarrow>
          (case js_index (js_split CHR '','' uri) 1 of
             None \<Rightarrow> (\<lambda>w. (Inl TypeError, w))
           | Some payload \<Rightarrow> (\<lambda>w.
               let svgContent = b64_utf8 env payload;
                   w1 = console_log (''SVG content for token ID '' @ toString tokenId @ '': '' @ svgContent) w
               in await (insertOne env ''svgs''
                    [(''tokenId'', Str (toString tokenId)),
                     (''svg'', Str svgContent),
                     (''createdAt'', Date (clock env (length (trace w1))))])
                  (\<lambda>_ w2. (Inr (),
                     console_log (''Stored SVG for token ID '' @ toString tokenId) w2)) w1)))))"

text \<open>\<^verbatim>\<open>for (let i = 0; i < totalSupply; i++)\<close>, entered at \<open>i\<close>: a throw in the body
  leaves the loop.\<close>

function svg_loop :: "env \<Rightarrow> nat \<Rightarrow> nat \<Rightarrow> unit io" where
  "svg_loop env tot i w =
     (if i < tot
      then (case loop_body env i w of
              (Inl e, w') \<Rightarrow> (Inl e, w')
            | (Inr _, w') \<Rightarrow> svg_loop env tot (Suc i) w')
      else (Inr (), w))"
  by pat_completeness auto
termination
  by (relation "measure (\<lambda>(env, tot, i, w). tot - i)") auto

declare svg_loop.simps [simp del]

text \<open>The \<^verbatim>\<open>try\<close> block, lines 66 to 96.\<close>

definition try_block :: "env \<Rightarrow> unit io" where
  "try_block env =
     await (call_totalSupply env) (\<lambda>tot.
     await (svg_loop env tot 0) (\<lambda>_ w.
       (Inr (), console_log ''Finished fetching and storing SVGs'' w)))"

definition fetchAndStoreSVGs :: "env \<Rightarrow> unit io" where
  "fetchAndStoreSVGs env w =
     (case getProvider env w of
        (None, w1) \<Rightarrow>
          (Inr (), console_error ''Could not connect to the network. Skipping SVG fetch.'' None w1)
      | (Some provider, w1) \<Rightarrow>
          (case try_block env w1 of
             (Inr _, w2) \<Rightarrow> (Inr (), w2)
           | (Inl e, w2) \<Rightarrow>
               (Inr (), console_error ''Error fetching and storing SVGs:'' (Some e) w2)))"

text \<open>A pass completed without error when the last thing it did was to log its
  closing line.\<close>

definition finished :: "world \<Rightarrow> bool" where
  "finished w = (trace w \<noteq> [] \<and>
     last (trace w) = Console Info ''Finished fetching and storing SVGs'' None)"

section \<open>The Listener: the \<^verbatim>\<open>TextSet\<close> callback\<close>

definition on_TextSet :: "env \<Rightarrow> nat \<Rightarrow> string \<Rightarrow> world \<Rightarrow> world" where
  "on_TextSet env tokenId txt w =
     (let w0 = console_log (''TextSet event: TokenID '' @ toString tokenId @ '', Text: '' @ txt) w in
      case updateOne env ''catTexts'' [(''tokenId'', Str (toString tokenId))] [(''text'', Str txt)] w0 of
        (Inr _, w1) \<Rightarrow> console_log (''Stored text for token ID '' @ toString tokenId) w1
      | (Inl e, w1) \<Rightarrow> console_error ''Error storing text in MongoDB:'' (Some e) w1)"

section \<open>HTTP handlers\<close>

definition res_json :: "nat \<Rightarrow> jsval \<Rightarrow> world \<Rightarrow> world" where
  "res_json status body w = emit (Respond status body) w"

text \<open>\<^verbatim>\<open>GET /fetch-svgs\<close>\<close>

definition route_fetch_svgs :: "env \<Rightarrow> world \<Rightarrow> world" where
  "route_fetch_svgs env w =
     (case fetchAndStoreSVGs env w of
        (Inr _, w1) \<Rightarrow>
          res_json 200 (Obj [(''message'', Str ''SVG fetch process initiated'')]) w1
      | (Inl e, w1) \<Rightarrow>
          res_json 500 (Obj [(''error'', Str ''Failed to initiate SVG fetch'')])
            (console_error ''Error initiating SVG fetch:'' (Some e) w1))"

text \<open>\<^verbatim>\<open>GET /get-cat-text/:tokenId\<close>\<close>

definition route_get_cat_text :: "env \<Rightarrow> string \<Rightarrow> world \<Rightarrow> world" where
  "route_get_cat_text env tokenId w =
     (case findOne env ''catTexts'' [(''tokenId'', Str tokenId)] w of
        (Inr result, w1) \<Rightarrow>
          res_json 200 (case result of Some d \<Rightarrow> field d ''text'' | None \<Rightarrow> Null) w1
      | (Inl e, w1) \<Rightarrow>
          res_json 500 (Obj [(''error'', Str ''Failed to fetch cat text'')])
            (console_error ''Error fetching cat text:'' (Some e) w1))"

section \<open>Sample environments\<close>

text \<open>Two tokens, 101 and 102, with well-formed data URIs; the library's answers on
  their two payloads; a store and an endpoint that never fail.\<close>

definition example_contract :: contract where
  "example_contract = \<lparr>totalSupply = 2,
     tokenByIndex = (\<lambda>i. if i = 0 then Some 101 else if i = 1 then Some 102 else None),
     tokenURI = (\<lambda>t. if t = 101 then Some ''data:image/svg+xml;base64,aGVsbG8=''
                     else if t = 102 then Some ''data:image/svg+xml;base64,d29ybGQ=''
                     else None)\<rparr>"

definition example_env :: env where
  "example_env = \<lparr>contract = example_contract, faults = (\<lambda>n. False), clock = (\<lambda>n. 1000 + n),
     b64_utf8 = (\<lambda>s. if s = ''aGVsbG8='' then ''hello''
                     else if s = ''d29ybGQ='' then ''world'' else [])\<rparr>"

text \<open>The same with every I/O operation failing.\<close>

definition offline_env :: env where
  "offline_env = example_env\<lparr>faults := (\<lambda>n. True)\<rparr>"

text \<open>The same with one failure, at the third effect of a pass from an empty
  trace: the \<^verbatim>\<open>totalSupply\<close> read.\<close>

definition flaky_env :: env where
  "flaky_env = example_env\<lparr>faults := (\<lambda>n. n = 2)\<rparr>"

text \<open>Three tokens, the second with a token URI that has no comma.\<close>

definition broken_contract :: contract where
  "broken_contract = \<lparr>totalSupply = 3,
     tokenByIndex = (\<lambda>i. if i = 0 then Some 101 else if i = 1 then Some 102
                         else if i = 2 then Some 103 else None),
     tokenURI = (\<lambda>t. if t = 101 then Some ''data:image/svg+xml;base64,aGVsbG8=''
                     else if t = 102 then Some ''ipfs://cat-102''
                     else if t = 103 then Some ''data:image/svg+xml;base64,d29ybGQ=''
                     else None)\<rparr>"

definition broken_env :: env where
  "broken_env = example_env\<lparr>contract := broken_contract\<rparr>"

definition empty_world :: world where
  "empty_world = \<lparr>db = (\<lambda>c. []), trace = []\<rparr>"

text \<open>The worlds a pass of \<open>broken_env\<close> goes through from the empty world: connected,
  total supply read, index 0 done, index 1 thrown.\<close>

definition broken_w1 :: world where
  "broken_w1 = snd (getProvider broken_env empty_world)"

definition broken_w2 :: world where
  "broken_w2 = snd (call_totalSupply broken_env broken_w1)"

definition broken_w3 :: world where
  "broken_w3 = snd (svg_loop broken_env 1 0 broken_w2)"

definition broken_w4 :: world where
  "broken_w4 = snd (loop_body broken_env 1 broken_w3)"

section \<open>Effects of the primitives\<close>

lemma db_emit [simp]: "db (emit e w) = db w"
  by (simp add: emit_def)

lemma trace_emit [simp]: "trace (emit e w) = trace w @ [e]"
  by (simp add: emit_def)

lemma db_console_log [simp]: "db (console_log m w) = db w"
  by (simp add: console_log_def)

lemma trace_console_log [simp]: "trace (console_log m w) = trace w @ [Console Info m None]"
  by (simp add: console_log_def)

lemma db_console_error [simp]: "db (console_error m e w) = db w"
  by (simp add: console_error_def)

lemma trace_console_error [simp]: "trace (console_error m e w) = trace w @ [Console Err m e]"
  by (simp add: console_error_def)

lemmas prims = call_tokenByIndex_def call_tokenURI_def findOne_def insertOne_def
  call_totalSupply_def

lemma loop_body_cases:
  assumes "loop_body env i w = (r, w')"
  shows "db w' = db w \<or>
    (\<exists>tokenId uri payload t. r = Inr () \<and>
       tokenByIndex (contract env) i = Some tokenId \<and>
       tokenURI (contract env) tokenId = Some uri \<and>
       js_index (js_split CHR '','' uri) 1 = Some payload \<and>
       find (matches [(''tokenId'', Str (toString tokenId))]) (db w ''svgs'') = None \<and>
       db w' = (db w)(''svgs'' := db w ''svgs'' @
          [[(''tokenId'', Str (toString tokenId)), (''svg'', Str (b64_utf8 env payload)),
            (''createdAt'', Date t)]]))"
  using assms
  by (auto simp: loop_body_def await_def prims Let_def split: if_splits option.splits sum.splits prod.splits)

lemma loop_body_ok:
  assumes "loop_body env i w = (Inr u, w')"
  shows "\<exists>tokenId. tokenByIndex (contract env) i = Some tokenId \<and>
     (\<exists>d \<in> set (db w' ''svgs''). matches [(''tokenId'', Str (toString tokenId))] d)"
  using assms
  by (auto simp: loop_body_def await_def prims Let_def matches_def find_Some_iff
      split: if_splits option.splits sum.splits prod.splits)

lemma loop_body_skip:
  assumes "loop_body env i w = (r, w')"
    and "\<And>tokenId. tokenByIndex (contract env) i = Some tokenId \<Longrightarrow>
           \<exists>d \<in> set (db w ''svgs''). matches [(''tokenId'', Str (toString tokenId))] d"
  shows "db w' = db w"
  using assms
  by (auto simp: loop_body_def await_def prims Let_def find_None_iff
      split: if_splits option.splits sum.splits prod.splits)

lemma loop_body_trace:
  assumes "loop_body env i w = (r, w')"
  shows "\<exists>evs. trace w' = trace w @ evs \<and> RpcTokenByIndex i \<in> set evs \<and>
           (\<forall>j. RpcTokenByIndex j \<in> set evs \<longrightarrow> j = i)"
  using assms
  by (auto simp: loop_body_def await_def prims Let_def
      split: if_splits option.splits sum.splits prod.splits)

section \<open>The loop\<close>

lemma svg_loop_done: "\<not> i < tot \<Longrightarrow> svg_loop env tot i w = (Inr (), w)"
  by (simp add: svg_loop.simps)

lemma svg_loop_fail:
  "i < tot \<Longrightarrow> loop_body env i w = (Inl e, w1) \<Longrightarrow> svg_loop env tot i w = (Inl e, w1)"
  by (simp add: svg_loop.simps)

lemma svg_loop_step:
  "i < tot \<Longrightarrow> loop_body env i w = (Inr u, w1) \<Longrightarrow>
     svg_loop env tot i w = svg_loop env tot (Suc i) w1"
  by (simp add: svg_loop.simps)

lemma svg_loop_rule [consumes 1, case_names leave throw step]:
  assumes run: "svg_loop env tot i w = (r, w')"
    and leave: "\<And>i w. \<not> i < tot \<Longrightarrow> P i w (Inr ()) w"
    and throw: "\<And>i w e w1. i < tot \<Longrightarrow> loop_body env i w = (Inl e, w1) \<Longrightarrow> P i w (Inl e) w1"
    and step: "\<And>i w u w1 r w'. i < tot \<Longrightarrow> loop_body env i w = (Inr u, w1) \<Longrightarrow>
                 svg_loop env tot (Suc i) w1 = (r, w') \<Longrightarrow> P (Suc i) w1 r w' \<Longrightarrow> P i w r w'"
  shows "P i w r w'"
  using run
proof (induction "tot - i" arbitrary: i w)
  case 0
  then have "\<not> i < tot" by simp
  with "0.prems" leave show ?case by (simp add: svg_loop_done)
next
  case (Suc k)
  then have lt: "i < tot" by simp
  obtain r1 w1 where body: "loop_body env i w = (r1, w1)" by (cases "loop_body env i w")
  show ?case
  proof (cases r1)
    case (Inl e)
    with lt body Suc.prems have "r = Inl e" "w' = w1" by (simp_all add: svg_loop_fail)
    with lt body Inl throw show ?thesis by simp
  next
    case (Inr u)
    with lt body Suc.prems have rest: "svg_loop env tot (Suc i) w1 = (r, w')"
      by (simp add: svg_loop_step)
    from Suc.hyps(2) have "k = tot - Suc i" by simp
    then have "P (Suc i) w1 r w'" using rest by (rule Suc.hyps(1))
    with lt body Inr rest step show ?thesis by blast
  qed
qed

lemma svg_loop_added:
  assumes "svg_loop env tot i w = (r, w')"
  shows "\<exists>new. db w' = (db w)(''svgs'' := db w ''svgs'' @ new) \<and>
     (\<forall>d \<in> set new. \<exists>j tokenId uri payload t. i \<le> j \<and> j < tot \<and>
        tokenByIndex (contract env) j = Some tokenId \<and>
        tokenURI (contract env) tokenId = Some uri \<and>
        js_index (js_split CHR '','' uri) 1 = Some payload \<and>
        d = [(''tokenId'', Str (toString tokenId)), (''svg'', Str (b64_utf8 env payload)),
             (''createdAt'', Date t)])"
  using assms
proof (induction rule: svg_loop_rule)
  case (leave i w)
  show ?case by (intro exI[of _ "[]"]) simp
next
  case (throw i w e w1)
  from loop_body_cases[OF throw(2)] have "db w1 = db w" by auto
  then show ?case by (intro exI[of _ "[]"]) simp
next
  case (step i w u w1 r w')
  from step.IH obtain n2 where n2: "db w' = (db w1)(''svgs'' := db w1 ''svgs'' @ n2)"
    and s2: "\<forall>d \<in> set n2. \<exists>j tokenId uri payload t. Suc i \<le> j \<and> j < tot \<and>
        tokenByIndex (contract env) j = Some tokenId \<and>
        tokenURI (contract env) tokenId = Some uri \<and>
        js_index (js_split CHR '','' uri) 1 = Some payload \<and>
        d = [(''tokenId'', Str (toString tokenId)), (''svg'', Str (b64_utf8 env payload)),
             (''createdAt'', Date t)]"
    by blast
  from s2 have s2': "\<forall>d \<in> set n2. \<exists>j tokenId uri payload t. i \<le> j \<and> j < tot \<and>
        tokenByIndex (contract env) j = Some tokenId \<and>
        tokenURI (contract env) tokenId = Some uri \<and>
        js_index (js_split CHR '','' uri) 1 = Some payload \<and>
        d = [(''tokenId'', Str (toString tokenId)), (''svg'', Str (b64_utf8 env payload)),
             (''createdAt'', Date t)]"
    by (meson Suc_leD)
  from loop_body_cases[OF step(2)] show ?case
  proof
    assume "db w1 = db w"
    with n2 s2' show ?thesis by auto
  next
    assume "\<exists>tokenId uri payload t. Inr u = Inr () \<and>
       tokenByIndex (contract env) i = Some tokenId \<and>
       tokenURI (contract env) tokenId = Some uri \<and>
       js_index (js_split CHR '','' uri) 1 = Some payload \<and>
       find (matches [(''tokenId'', Str (toString tokenId))]) (db w ''svgs'') = None \<and>
       db w1 = (db w)(''svgs'' := db w ''svgs'' @
          [[(''tokenId'', Str (toString tokenId)), (''svg'', Str (b64_utf8 env payload)),
            (''createdAt'', Date t)]])"
    then obtain tokenId uri payload t where
      a: "tokenByIndex (contract env) i = Some tokenId"
         "tokenURI (contract env) tokenId = Some uri"
         "js_index (js_split CHR '','' uri) 1 = Some payload"
      and d1: "db w1 = (db w)(''svgs'' := db w ''svgs'' @
          [[(''tokenId'', Str (toString tokenId)), (''svg'', Str (b64_utf8 env payload)),
            (''createdAt'', Date t)]])"
      by blast
    let ?d = "[(''tokenId'', Str (toString tokenId)), (''svg'', Str (b64_utf8 env payload)),
            (''createdAt'', Date t)]"
    from n2 d1 have "db w' = (db w)(''svgs'' := db w ''svgs'' @ (?d # n2))" by simp
    moreover from a step(1) s2' have "\<forall>d \<in> set (?d # n2). \<exists>j tokenId uri payload t. i \<le> j \<and> j < tot \<and>
        tokenByIndex (contract env) j = Some tokenId \<and>
        tokenURI (contract env) tokenId = Some uri \<and>
        js_index (js_split CHR '','' uri) 1 = Some payload \<and>
        d = [(''tokenId'', Str (toString tokenId)), (''svg'', Str (b64_utf8 env payload)),
             (''createdAt'', Date t)]"
      by (metis order_refl set_ConsD)
    ultimately show ?thesis by blast
  qed
qed

lemma svg_loop_frame:
  "svg_loop env tot i w = (r, w') \<Longrightarrow> \<exists>new. db w' ''svgs'' = db w ''svgs'' @ new"
  by (drule svg_loop_added) auto

lemma svg_loop_complete:
  assumes "svg_loop env tot i w = (r, w')" and "r = Inr u"
  shows "\<forall>j. i \<le> j \<and> j < tot \<longrightarrow> (\<exists>tokenId. tokenByIndex (contract env) j = Some tokenId \<and>
     (\<exists>d \<in> set (db w' ''svgs''). matches [(''tokenId'', Str (toString tokenId))] d))"
  using assms
proof (induction rule: svg_loop_rule)
  case (leave i w)
  then show ?case by auto
next
  case (throw i w e w1)
  then show ?case by simp
next
  case (step i w u' w1 r w')
  from loop_body_ok[OF step(2)] obtain tokenId d where
    t: "tokenByIndex (contract env) i = Some tokenId"
    and d: "d \<in> set (db w1 ''svgs'')" "matches [(''tokenId'', Str (toString tokenId))] d"
    by blast
  from svg_loop_frame[OF step(3)] d(1) have "d \<in> set (db w' ''svgs'')" by auto
  with t d(2) have here: "\<exists>tokenId. tokenByIndex (contract env) i = Some tokenId \<and>
     (\<exists>d \<in> set (db w' ''svgs''). matches [(''tokenId'', Str (toString tokenId))] d)"
    by blast
  show ?case
  proof (intro allI impI)
    fix j assume j: "i \<le> j \<and> j < tot"
    show "\<exists>tokenId. tokenByIndex (contract env) j = Some tokenId \<and>
       (\<exists>d \<in> set (db w' ''svgs''). matches [(''tokenId'', Str (toString tokenId))] d)"
    proof (cases "j = i")
      case True
      with here show ?thesis by simp
    next
      case False
      with j have "Suc i \<le> j \<and> j < tot" by simp
      with step.IH[OF step.prems] show ?thesis by blast
    qed
  qed
qed

lemma svg_loop_skip:
  assumes "svg_loop env tot i w = (r, w')"
    and "\<forall>j tokenId. j < tot \<and> tokenByIndex (contract env) j = Some tokenId \<longrightarrow>
           (\<exists>d \<in> set (db w ''svgs''). matches [(''tokenId'', Str (toString tokenId))] d)"
  shows "db w' = db w"
  using assms
proof (induction rule: svg_loop_rule)
  case (leave i w)
  show ?case by simp
next
  case (throw i w e w1)
  then show ?case by (intro loop_body_skip[OF throw(2)]) blast
next
  case (step i w u w1 r w')
  have eq: "db w1 = db w" using step(1,5) by (intro loop_body_skip[OF step(2)]) blast
  with step.prems have "db w' = db w1" by (intro step.IH) simp
  with eq show ?case by simp
qed

lemma svg_loop_trace:
  assumes "svg_loop env tot i w = (r, w')"
  shows "\<exists>evs. trace w' = trace w @ evs \<and>
           (\<forall>j. RpcTokenByIndex j \<in> set evs \<longrightarrow> i \<le> j \<and> j < tot)"
  using assms
proof (induction rule: svg_loop_rule)
  case (leave i w)
  show ?case by simp
next
  case (throw i w e w1)
  from loop_body_trace[OF throw(2)] throw(1) show ?case by blast
next
  case (step i w u w1 r w')
  from loop_body_trace[OF step(2)] obtain e1 where
    e1: "trace w1 = trace w @ e1" "\<forall>j. RpcTokenByIndex j \<in> set e1 \<longrightarrow> j = i" by blast
  from step.IH obtain e2 where
    e2: "trace w' = trace w1 @ e2" "\<forall>j. RpcTokenByIndex j \<in> set e2 \<longrightarrow> Suc i \<le> j \<and> j < tot"
    by blast
  from e1 e2 have "trace w' = trace w @ (e1 @ e2)" by simp
  moreover from e1(2) e2(2) step(1)
  have "\<forall>j. RpcTokenByIndex j \<in> set (e1 @ e2) \<longrightarrow> i \<le> j \<and> j < tot" by auto
  ultimately show ?case by blast
qed

lemma svg_loop_split:
  assumes "svg_loop env k i w = (r, w3)" and "r = Inr u" and "i \<le> k" and "k \<le> tot"
  shows "svg_loop env tot i w = svg_loop env tot k w3"
  using assms
proof (induction rule: svg_loop_rule)
  case (leave i w)
  then have "i = k" by simp
  then show ?case by simp
next
  case (throw i w e w1)
  then show ?case by simp
next
  case (step i w u' w1 r w3)
  then have "svg_loop env tot i w = svg_loop env tot (Suc i) w1"
    by (intro svg_loop_step[where u=u']) auto
  with step show ?case by simp
qed

section \<open>The pass\<close>

lemma fetch_down:
  "io_fault env w \<Longrightarrow> fetchAndStoreSVGs env w =
     (Inr (), console_error ''Could not connect to the network. Skipping SVG fetch.'' None
        (console_error ''Failed to connect to the network:'' (Some NetworkError)
           (emit RpcGetNetwork w)))"
  by (simp add: fetchAndStoreSVGs_def getProvider_def)

lemma fetch_up:
  "\<not> io_fault env w \<Longrightarrow> fetchAndStoreSVGs env w =
     (case try_block env (console_log ''Connected to the network'' (emit RpcGetNetwork w)) of
        (Inr u, w2) \<Rightarrow> (Inr (), w2)
      | (Inl e, w2) \<Rightarrow> (Inr (), console_error ''Error fetching and storing SVGs:'' (Some e) w2))"
  by (simp add: fetchAndStoreSVGs_def getProvider_def)

lemma try_block_down:
  "io_fault env w \<Longrightarrow> try_block env w = (Inl NetworkError, emit RpcTotalSupply w)"
  by (simp add: try_block_def await_def call_totalSupply_def)

lemma try_block_up:
  "\<not> io_fault env w \<Longrightarrow> try_block env w =
     (case svg_loop env (totalSupply (contract env)) 0 (emit RpcTotalSupply w) of
        (Inl e, w3) \<Rightarrow> (Inl e, w3)
      | (Inr u, w3) \<Rightarrow> (Inr (), console_log ''Finished fetching and storing SVGs'' w3))"
  by (simp add: try_block_def await_def call_totalSupply_def)

lemma fetch_never_raises: "fst (fetchAndStoreSVGs env w) = Inr ()"
  by (cases "io_fault env w")
     (simp_all add: fetch_down fetch_up split: prod.splits sum.splits)

text \<open>What a pass that logged its closing line went through.\<close>

lemma fetch_finished:
  assumes "finished (snd (fetchAndStoreSVGs env w))"
  shows "\<exists>w2 w3 u. db w2 = db w \<and>
     svg_loop env (totalSupply (contract env)) 0 w2 = (Inr u, w3) \<and>
     db (snd (fetchAndStoreSVGs env w)) = db w3"
proof (cases "io_fault env w")
  case True
  with assms show ?thesis by (simp add: fetch_down finished_def)
next
  case False
  let ?w1 = "console_log ''Connected to the network'' (emit RpcGetNetwork w)"
  show ?thesis
  proof (cases "io_fault env ?w1")
    case True
    with False assms show ?thesis by (simp add: fetch_up try_block_down finished_def)
  next
    case up: False
    let ?w2 = "emit RpcTotalSupply ?w1"
    obtain r3 w3 where loop: "svg_loop env (totalSupply (contract env)) 0 ?w2 = (r3, w3)"
      by (cases "svg_loop env (totalSupply (contract env)) 0 ?w2")
    show ?thesis
    proof (cases r3)
      case (Inl e)
      with False up loop assms show ?thesis
        by (simp add: fetch_up try_block_up finished_def)
    next
      case (Inr u)
      with False up loop have "db (snd (fetchAndStoreSVGs env w)) = db w3"
        by (simp add: fetch_up try_block_up)
      moreover have "db ?w2 = db w" by simp
      ultimately show ?thesis using loop Inr by blast
    qed
  qed
qed

text \<open>Every pass, whatever its outcome, is a run of the loop from a world with the
  same database, or no run at all.\<close>

lemma fetch_db:
  "db (snd (fetchAndStoreSVGs env w)) = db w \<or>
   (\<exists>w2 r3 w3. db w2 = db w \<and>
      svg_loop env (totalSupply (contract env)) 0 w2 = (r3, w3) \<and>
      db (snd (fetchAndStoreSVGs env w)) = db w3)"
proof (cases "io_fault env w")
  case True
  then show ?thesis by (simp add: fetch_down)
next
  case False
  let ?w1 = "console_log ''Connected to the network'' (emit RpcGetNetwork w)"
  show ?thesis
  proof (cases "io_fault env ?w1")
    case True
    with False show ?thesis by (simp add: fetch_up try_block_down)
  next
    case up: False
    let ?w2 = "emit RpcTotalSupply ?w1"
    obtain r3 w3 where loop: "svg_loop env (totalSupply (contract env)) 0 ?w2 = (r3, w3)"
      by (cases "svg_loop env (totalSupply (contract env)) 0 ?w2")
    with False up have "db (snd (fetchAndStoreSVGs env w)) = db w3"
      by (cases r3) (simp_all add: fetch_up try_block_up)
    moreover have "db ?w2 = db w" by simp
    ultimately show ?thesis using loop by blast
  qed
qed

lemma fetch_added:
  "\<exists>new. db (snd (fetchAndStoreSVGs env w)) = (db w)(''svgs'' := db w ''svgs'' @ new) \<and>
     (\<forall>d \<in> set new. \<exists>j tokenId uri payload t. j < totalSupply (contract env) \<and>
        tokenByIndex (contract env) j = Some tokenId \<and>
        tokenURI (contract env) tokenId = Some uri \<and>
        js_index (js_split CHR '','' uri) 1 = Some payload \<and>
        d = [(''tokenId'', Str (toString tokenId)), (''svg'', Str (b64_utf8 env payload)),
             (''createdAt'', Date t)])"
  using fetch_db[of env w]
proof
  assume "db (snd (fetchAndStoreSVGs env w)) = db w"
  then show ?thesis by (intro exI[of _ "[]"]) simp
next
  assume "\<exists>w2 r3 w3. db w2 = db w \<and>
      svg_loop env (totalSupply (contract env)) 0 w2 = (r3, w3) \<and>
      db (snd (fetchAndStoreSVGs env w)) = db w3"
  then obtain w2 r3 w3 where a: "db w2 = db w"
    "svg_loop env (totalSupply (contract env)) 0 w2 = (r3, w3)"
    "db (snd (fetchAndStoreSVGs env w)) = db w3" by blast
  from svg_loop_added[OF a(2)] a(1,3) show ?thesis by simp
qed

section \<open>Facts about strings\<close>

lemma digit_inj: "a < 10 \<Longrightarrow> b < 10 \<Longrightarrow> digit a = digit b \<Longrightarrow> a = b"
proof -
  assume a: "a < 10" and b: "b < 10" and eq: "digit a = digit b"
  have "distinct ''0123456789''" by simp
  moreover have "length ''0123456789'' = 10" by simp
  ultimately show "a = b" using a b eq unfolding digit_def
    by (metis nth_eq_iff_index_eq)
qed

lemma toString_nonempty: "toString n \<noteq> []"
  by (subst toString.simps) simp

lemma toString_inj: "toString n = toString m \<Longrightarrow> n = m"
proof (induction n arbitrary: m rule: toString.induct)
  case (1 n)
  show ?case
  proof (cases "n < 10")
    case True
    show ?thesis
    proof (cases "m < 10")
      case m: True
      from "1.prems" True m have "digit n = digit m"
        by (simp add: toString.simps[of n] toString.simps[of m])
      with True m show ?thesis by (blast intro: digit_inj)
    next
      case m: False
      from "1.prems" True m have "[digit n] = toString (m div 10) @ [digit (m mod 10)]"
        by (simp add: toString.simps[of n] toString.simps[of m])
      then have "toString (m div 10) = []" by simp
      with toString_nonempty show ?thesis by blast
    qed
  next
    case False
    show ?thesis
    proof (cases "m < 10")
      case m: True
      from "1.prems" False m have "toString (n div 10) @ [digit (n mod 10)] = [digit m]"
        by (simp add: toString.simps[of n] toString.simps[of m])
      then have "toString (n div 10) = []" by simp
      with toString_nonempty show ?thesis by blast
    next
      case m: False
      from "1.prems" False m
      have "toString (n div 10) @ [digit (n mod 10)] = toString (m div 10) @ [digit (m mod 10)]"
        by (simp add: toString.simps[of n] toString.simps[of m])
      then have q: "toString (n div 10) = toString (m div 10)"
        and r: "digit (n mod 10) = digit (m mod 10)" by simp_all
      from "1.IH"[OF False q] have "n div 10 = m div 10" .
      moreover from r have "n mod 10 = m mod 10" by (intro digit_inj) simp_all
      ultimately show ?thesis by (metis div_mult_mod_eq)
    qed
  qed
qed

lemma js_split_none: "sep \<notin> set s \<Longrightarrow> js_split sep s = [s]"
  by (induction s) auto

lemma js_split_first: "sep \<notin> set p \<Longrightarrow> js_split sep (p @ sep # r) = p # js_split sep r"
  by (induction p) auto

lemma payload_of_data_uri:
  "sep \<notin> set p \<Longrightarrow> sep \<notin> set b \<Longrightarrow> js_index (js_split sep (p @ sep # b)) 1 = Some b"
  by (simp add: js_split_first js_split_none js_index_def)

section \<open>Traces of the connection steps\<close>

lemma getProvider_trace:
  "getProvider env w = (r, w1) \<Longrightarrow>
     \<exists>evs. trace w1 = trace w @ evs \<and> (\<forall>j. RpcTokenByIndex j \<notin> set evs)"
  by (auto simp: getProvider_def Let_def split: if_splits)

lemma call_totalSupply_trace:
  "call_totalSupply env w = (r, w1) \<Longrightarrow> trace w1 = trace w @ [RpcTotalSupply]"
  by (auto simp: call_totalSupply_def Let_def split: if_splits)

section \<open>The handler of \<^verbatim>\<open>/fetch-svgs\<close>\<close>

text \<open>The pass never throws, so the handler never reaches its \<^verbatim>\<open>catch\<close>.\<close>

lemma route_fetch_svgs_always_200:
  "route_fetch_svgs env w =
     res_json 200 (Obj [(''message'', Str ''SVG fetch process initiated'')])
       (snd (fetchAndStoreSVGs env w))"
  using fetch_never_raises[of env w]
  by (cases "fetchAndStoreSVGs env w") (simp add: route_fetch_svgs_def)

section \<open>Upserts into \<^verbatim>\<open>catTexts\<close>\<close>

lemma set_fields_text: "set_fields [(''text'', v)] d = AList.update ''text'' v d"
  by (simp add: set_fields_def)

lemma matches_key: "matches [(''tokenId'', k)] d \<longleftrightarrow> map_of d ''tokenId'' = Some k"
  by (simp add: matches_def)

lemma matches_set_text:
  "matches [(''tokenId'', k)] (set_fields [(''text'', v)] d) = matches [(''tokenId'', k)] d"
  by (simp add: matches_key set_fields_text update_conv')

lemma text_set_text: "map_of (set_fields [(''text'', v)] d) ''text'' = Some v"
  by (simp add: set_fields_text update_conv')

lemma update_first_None: "update_first P f ds = None \<longleftrightarrow> filter P ds = []"
  by (induction ds) auto

lemma update_first_Some:
  assumes "update_first P f ds = Some ds'" and "\<And>d. P (f d) = P d"
  shows "\<exists>d rest. filter P ds = d # rest \<and> filter P ds' = f d # rest"
  using assms(1)
proof (induction ds arbitrary: ds')
  case Nil
  then show ?case by simp
next
  case (Cons x xs)
  show ?case
  proof (cases "P x")
    case True
    with Cons.prems have "ds' = f x # xs" by simp
    with True assms(2) show ?thesis by simp
  next
    case False
    with Cons.prems obtain ys where ys: "update_first P f xs = Some ys" "ds' = x # ys"
      by auto
    from Cons.IH[OF ys(1)] False ys(2) show ?thesis by simp
  qed
qed

lemma on_TextSet_db:
  assumes "\<not> faults env (Suc (length (trace w)))"
  shows "db (on_TextSet env tokenId s w) ''catTexts'' =
     (case update_first (matches [(''tokenId'', Str (toString tokenId))])
             (set_fields [(''text'', Str s)]) (db w ''catTexts'') of
        Some ds \<Rightarrow> ds
      | None \<Rightarrow> db w ''catTexts'' @ [[(''tokenId'', Str (toString tokenId)), (''text'', Str s)]])"
  using assms
  by (simp add: on_TextSet_def updateOne_def io_fault_def Let_def set_fields_def
      split: option.splits)

lemma on_TextSet_keyed:
  assumes "\<not> faults env (Suc (length (trace w)))"
  shows "\<exists>d rest. keyed (toString tokenId) (db (on_TextSet env tokenId s w) ''catTexts'') = d # rest \<and>
     map_of d ''text'' = Some (Str s) \<and>
     length rest = length (keyed (toString tokenId) (db w ''catTexts'')) - 1"
proof (cases "update_first (matches [(''tokenId'', Str (toString tokenId))])
             (set_fields [(''text'', Str s)]) (db w ''catTexts'')")
  case None
  then have e: "keyed (toString tokenId) (db w ''catTexts'') = []"
    unfolding keyed_def by (simp only: update_first_None)
  from None have "db (on_TextSet env tokenId s w) ''catTexts'' =
     db w ''catTexts'' @ [[(''tokenId'', Str (toString tokenId)), (''text'', Str s)]]"
    by (simp only: on_TextSet_db[OF assms] option.case)
  then have "keyed (toString tokenId) (db (on_TextSet env tokenId s w) ''catTexts'') =
     [[(''tokenId'', Str (toString tokenId)), (''text'', Str s)]]"
    using e by (simp add: keyed_def matches_key)
  with e show ?thesis by simp
next
  case (Some ds)
  have inv: "\<And>d. matches [(''tokenId'', Str (toString tokenId))] (set_fields [(''text'', Str s)] d)
     = matches [(''tokenId'', Str (toString tokenId))] d"
    by (rule matches_set_text)
  from update_first_Some[where P="matches [(''tokenId'', Str (toString tokenId))]"
      and f="set_fields [(''text'', Str s)]", OF Some inv] obtain d rest where
    a: "keyed (toString tokenId) (db w ''catTexts'') = d # rest"
    and b: "keyed (toString tokenId) ds = set_fields [(''text'', Str s)] d # rest"
    unfolding keyed_def by blast
  from Some have "db (on_TextSet env tokenId s w) ''catTexts'' = ds"
    by (simp only: on_TextSet_db[OF assms] option.case)
  with a b show ?thesis by (simp add: text_set_text)
qed

lemma update_first_count:
  assumes "update_first P f ds = Some ds'" and "\<forall>d. Q (f d) = Q d"
  shows "length (filter Q ds') = length (filter Q ds)"
  using assms(1)
proof (induction ds arbitrary: ds')
  case Nil
  then show ?case by simp
next
  case (Cons x xs)
  show ?case
  proof (cases "P x")
    case True
    with Cons.prems have "ds' = f x # xs" by simp
    with assms(2) show ?thesis by simp
  next
    case False
    with Cons.prems obtain ys where ys: "update_first P f xs = Some ys" "ds' = x # ys"
      by auto
    from Cons.IH[OF ys(1)] ys(2) show ?thesis by simp
  qed
qed

lemma on_TextSet_fault:
  "faults env (Suc (length (trace w))) \<Longrightarrow> db (on_TextSet env tokenId s w) = db w"
  by (simp add: on_TextSet_def updateOne_def io_fault_def Let_def)

text \<open>The Listener keeps \<^verbatim>\<open>catTexts\<close> with at most one document for each key.\<close>

lemma on_TextSet_keeps_keys_unique:
  assumes "\<forall>k. length (keyed k (db w ''catTexts'')) \<le> 1"
  shows "length (keyed k (db (on_TextSet env tokenId s w) ''catTexts'')) \<le> 1"
proof (cases "faults env (Suc (length (trace w)))")
  case True
  with assms show ?thesis by (simp add: on_TextSet_fault)
next
  case False
  show ?thesis
  proof (cases "k = toString tokenId")
    case True
    from on_TextSet_keyed[OF False, of tokenId s] obtain d rest where
      "keyed (toString tokenId) (db (on_TextSet env tokenId s w) ''catTexts'') = d # rest"
      "length rest = length (keyed (toString tokenId) (db w ''catTexts'')) - 1" by blast
    moreover from assms have "length (keyed (toString tokenId) (db w ''catTexts'')) \<le> 1"
      by blast
    ultimately show ?thesis using True by simp
  next
    case other: False
    show ?thesis
    proof (cases "update_first (matches [(''tokenId'', Str (toString tokenId))])
             (set_fields [(''text'', Str s)]) (db w ''catTexts'')")
      case None
      then have "db (on_TextSet env tokenId s w) ''catTexts'' =
        db w ''catTexts'' @ [[(''tokenId'', Str (toString tokenId)), (''text'', Str s)]]"
        by (simp only: on_TextSet_db[OF False] option.case)
      with other have "keyed k (db (on_TextSet env tokenId s w) ''catTexts'') =
        keyed k (db w ''catTexts'')"
        by (auto simp: keyed_def matches_key)
      with assms show ?thesis by simp
    next
      case (Some ds)
      then have eq: "db (on_TextSet env tokenId s w) ''catTexts'' = ds"
        by (simp only: on_TextSet_db[OF False] option.case)
      have "\<forall>d. matches [(''tokenId'', Str k)] (set_fields [(''text'', Str s)] d)
         = matches [(''tokenId'', Str k)] d"
        by (simp add: matches_set_text)
      from update_first_count[where Q="matches [(''tokenId'', Str k)]", OF Some this] eq assms
      show ?thesis by (simp add: keyed_def)
    qed
  qed
qed

section \<open>Evaluating the model on the samples\<close>

lemmas eval_defs = fetchAndStoreSVGs_def getProvider_def try_block_def await_def svg_loop.simps
  loop_body_def prims io_fault_def example_env_def example_contract_def broken_env_def
  broken_contract_def
  offline_env_def flaky_env_def empty_world_def toString.simps digit_def js_index_def Let_def
  matches_def new_events_def inserted_def finished_def

section \<open>The claims\<close>

text \<open>
  C5. When the connection cannot be acquired at the start of a tick (the
  \<^verbatim>\<open>getNetwork\<close> probe fails), the tick returns normally to its caller, leaves the
  database as it was, and does exactly three things: the one probe and two lines on
  the error console. It reads and writes no collection and probes once only.
\<close>

theorem offline_tick_is_silent:
  assumes "io_fault env w"
  shows "fst (fetchAndStoreSVGs env w) = Inr () \<and>
    db (snd (fetchAndStoreSVGs env w)) = db w \<and>
    new_events w (snd (fetchAndStoreSVGs env w)) =
      [RpcGetNetwork,
       Console Err ''Failed to connect to the network:'' (Some NetworkError),
       Console Err ''Could not connect to the network. Skipping SVG fetch.'' None]"
  using assms by (simp add: fetch_down new_events_def)

theorem offline_tick_is_silent_witness:
  "io_fault offline_env empty_world \<and>
   fst (fetchAndStoreSVGs offline_env empty_world) = Inr () \<and>
   db (snd (fetchAndStoreSVGs offline_env empty_world)) = db empty_world \<and>
   new_events empty_world (snd (fetchAndStoreSVGs offline_env empty_world)) =
      [RpcGetNetwork,
       Console Err ''Failed to connect to the network:'' (Some NetworkError),
       Console Err ''Could not connect to the network. Skipping SVG fetch.'' None]"
  using offline_tick_is_silent[of offline_env empty_world]
  by (simp add: io_fault_def offline_env_def example_env_def empty_world_def)

text \<open>
  C7. \<^verbatim>\<open>GET /get-cat-text/:tokenId\<close> for an id that no document of \<^verbatim>\<open>catTexts\<close> has,
  when the lookup itself succeeds: the handler does the lookup and responds with
  status 200 and the JSON value null. Nothing is logged and nothing is stored.
\<close>

theorem cat_text_absent_is_null:
  assumes "\<not> io_fault env w"
    and "\<forall>d \<in> set (db w ''catTexts''). map_of d ''tokenId'' \<noteq> Some (Str tokenId)"
  shows "db (route_get_cat_text env tokenId w) = db w \<and>
    new_events w (route_get_cat_text env tokenId w) =
      [DbFindOne ''catTexts'' [(''tokenId'', Str tokenId)], Respond 200 Null]"
proof -
  from assms(2) have "find (matches [(''tokenId'', Str tokenId)]) (db w ''catTexts'') = None"
    by (simp add: find_None_iff matches_def)
  with assms(1) show ?thesis
    by (simp add: route_get_cat_text_def findOne_def res_json_def new_events_def)
qed

theorem cat_text_absent_is_null_witness:
  "\<not> io_fault example_env empty_world \<and>
   db empty_world ''catTexts'' = [] \<and>
   db (route_get_cat_text example_env ''5'' empty_world) = db empty_world \<and>
   new_events empty_world (route_get_cat_text example_env ''5'' empty_world) =
      [DbFindOne ''catTexts'' [(''tokenId'', Str ''5'')], Respond 200 Null]"
  using cat_text_absent_is_null[of example_env empty_world "''5''"]
  by (simp add: io_fault_def example_env_def empty_world_def)

text \<open>
  C8. Frame property of the Reconciler. Whatever a pass meets, the \<^verbatim>\<open>svgs\<close>
  collection after it is the collection before it with documents added at the end:
  every document present before is still there, in place and unchanged.
\<close>

theorem reconciler_only_appends:
  "\<exists>new. db (snd (fetchAndStoreSVGs env w)) ''svgs'' = db w ''svgs'' @ new"
  using fetch_added[of env w] by auto

text \<open>
  C3. Completeness of a pass that completed without error: for every index \<open>i\<close>
  below the total supply, \<^verbatim>\<open>tokenByIndex(i)\<close> answered with a token id and \<^verbatim>\<open>svgs\<close>
  holds a document whose \<^verbatim>\<open>tokenId\<close> is the decimal string of that id.
\<close>

theorem pass_completeness:
  assumes "finished (snd (fetchAndStoreSVGs env w))"
    and "i < totalSupply (contract env)"
  shows "\<exists>tokenId. tokenByIndex (contract env) i = Some tokenId \<and>
    (\<exists>d \<in> set (db (snd (fetchAndStoreSVGs env w)) ''svgs'').
        map_of d ''tokenId'' = Some (Str (toString tokenId)))"
proof -
  from fetch_finished[OF assms(1)] obtain w2 w3 u where
    loop: "svg_loop env (totalSupply (contract env)) 0 w2 = (Inr u, w3)"
    and db: "db (snd (fetchAndStoreSVGs env w)) = db w3" by blast
  from svg_loop_complete[OF loop refl] assms(2) db show ?thesis
    by (simp add: matches_def)
qed

theorem pass_completeness_witness:
  "finished (snd (fetchAndStoreSVGs example_env empty_world)) \<and>
   1 < totalSupply (contract example_env) \<and>
   (\<exists>tokenId. tokenByIndex (contract example_env) 1 = Some tokenId \<and>
    (\<exists>d \<in> set (db (snd (fetchAndStoreSVGs example_env empty_world)) ''svgs'').
        map_of d ''tokenId'' = Some (Str (toString tokenId))))"
proof -
  have f: "finished (snd (fetchAndStoreSVGs example_env empty_world))"
    by (simp add: eval_defs)
  have l: "1 < totalSupply (contract example_env)"
    by (simp add: example_env_def example_contract_def)
  from f l pass_completeness[OF f l] show ?thesis by blast
qed

text \<open>
  C2. Idempotence on an unchanged chain. After a pass that completed (it logged its
  closing line), a second pass over the same contract state adds nothing to \<^verbatim>\<open>svgs\<close>,
  whatever fails or not during the second pass and whatever its clock reads.
\<close>

theorem second_pass_inserts_nothing:
  assumes "finished (snd (fetchAndStoreSVGs env w))"
    and "contract env' = contract env"
  shows "db (snd (fetchAndStoreSVGs env' (snd (fetchAndStoreSVGs env w)))) ''svgs'' =
         db (snd (fetchAndStoreSVGs env w)) ''svgs''"
proof -
  let ?w1 = "snd (fetchAndStoreSVGs env w)"
  let ?n = "totalSupply (contract env)"
  from fetch_finished[OF assms(1)] obtain w2 w3 u where
    loop: "svg_loop env ?n 0 w2 = (Inr u, w3)" and db1: "db ?w1 = db w3" by blast
  from svg_loop_complete[OF loop refl] db1
  have cover: "\<forall>j tokenId. j < ?n \<and> tokenByIndex (contract env) j = Some tokenId \<longrightarrow>
      (\<exists>d \<in> set (db ?w1 ''svgs''). matches [(''tokenId'', Str (toString tokenId))] d)"
    by (metis le0 option.inject)
  from fetch_db[of env' ?w1] show ?thesis
  proof
    assume "db (snd (fetchAndStoreSVGs env' ?w1)) = db ?w1"
    then show ?thesis by simp
  next
    assume "\<exists>v2 r3 v3. db v2 = db ?w1 \<and>
      svg_loop env' (totalSupply (contract env')) 0 v2 = (r3, v3) \<and>
      db (snd (fetchAndStoreSVGs env' ?w1)) = db v3"
    then obtain v2 r3 v3 where v: "db v2 = db ?w1"
      "svg_loop env' (totalSupply (contract env')) 0 v2 = (r3, v3)"
      "db (snd (fetchAndStoreSVGs env' ?w1)) = db v3" by blast
    from cover v(1) assms(2)
    have "\<forall>j tokenId. j < totalSupply (contract env') \<and>
        tokenByIndex (contract env') j = Some tokenId \<longrightarrow>
        (\<exists>d \<in> set (db v2 ''svgs''). matches [(''tokenId'', Str (toString tokenId))] d)"
      by simp
    from svg_loop_skip[OF v(2) this] v(1,3) show ?thesis by simp
  qed
qed

theorem second_pass_inserts_nothing_witness:
  "finished (snd (fetchAndStoreSVGs example_env empty_world)) \<and>
   contract (example_env\<lparr>clock := (\<lambda>n. 0)\<rparr>) = contract example_env \<and>
   db (snd (fetchAndStoreSVGs (example_env\<lparr>clock := (\<lambda>n. 0)\<rparr>)
        (snd (fetchAndStoreSVGs example_env empty_world)))) ''svgs'' =
   db (snd (fetchAndStoreSVGs example_env empty_world)) ''svgs''"
proof -
  have f: "finished (snd (fetchAndStoreSVGs example_env empty_world))"
    by (simp add: eval_defs)
  have c: "contract (example_env\<lparr>clock := (\<lambda>n. 0)\<rparr>) = contract example_env"
    by simp
  from f c second_pass_inserts_nothing[OF f c] show ?thesis by blast
qed

text \<open>
  C10. Shape of what the Reconciler inserts. Every document a pass adds to \<^verbatim>\<open>svgs\<close>
  has exactly the fields \<^verbatim>\<open>tokenId\<close>, \<^verbatim>\<open>svg\<close> and \<^verbatim>\<open>createdAt\<close>, in this order: the
  decimal string of a token id that the contract lists below the total supply, a
  string and a date.
\<close>

theorem inserted_record_shape:
  assumes "d \<in> set (inserted w (snd (fetchAndStoreSVGs env w)))"
  shows "map fst d = [''tokenId'', ''svg'', ''createdAt''] \<and>
    (\<exists>i tokenId s t. i < totalSupply (contract env) \<and>
       tokenByIndex (contract env) i = Some tokenId \<and>
       d = [(''tokenId'', Str (toString tokenId)), (''svg'', Str s), (''createdAt'', Date t)])"
proof -
  from fetch_added[of env w] obtain new where
    n: "db (snd (fetchAndStoreSVGs env w)) = (db w)(''svgs'' := db w ''svgs'' @ new)"
    and sh: "\<forall>d \<in> set new. \<exists>j tokenId uri payload t. j < totalSupply (contract env) \<and>
        tokenByIndex (contract env) j = Some tokenId \<and>
        tokenURI (contract env) tokenId = Some uri \<and>
        js_index (js_split CHR '','' uri) 1 = Some payload \<and>
        d = [(''tokenId'', Str (toString tokenId)), (''svg'', Str (b64_utf8 env payload)),
             (''createdAt'', Date t)]"
    by blast
  from n assms have "d \<in> set new" by (simp add: inserted_def)
  with sh obtain j tokenId payload t where "j < totalSupply (contract env)"
    "tokenByIndex (contract env) j = Some tokenId"
    "d = [(''tokenId'', Str (toString tokenId)), (''svg'', Str (b64_utf8 env payload)),
             (''createdAt'', Date t)]" by blast
  then show ?thesis by auto
qed

theorem inserted_record_shape_witness:
  "[(''tokenId'', Str ''102''), (''svg'', Str ''world''), (''createdAt'', Date 1013)]
     \<in> set (inserted empty_world (snd (fetchAndStoreSVGs example_env empty_world))) \<and>
   map fst [(''tokenId'', Str ''102''), (''svg'', Str ''world''), (''createdAt'', Date (1013::nat))]
     = [''tokenId'', ''svg'', ''createdAt''] \<and>
   (\<exists>i tokenId s t. i < totalSupply (contract example_env) \<and>
       tokenByIndex (contract example_env) i = Some tokenId \<and>
       [(''tokenId'', Str ''102''), (''svg'', Str ''world''), (''createdAt'', Date 1013)] =
       [(''tokenId'', Str (toString tokenId)), (''svg'', Str s), (''createdAt'', Date t)])"
proof -
  have m: "[(''tokenId'', Str ''102''), (''svg'', Str ''world''), (''createdAt'', Date 1013)]
     \<in> set (inserted empty_world (snd (fetchAndStoreSVGs example_env empty_world)))"
    by (simp add: eval_defs)
  from m inserted_record_shape[OF m] show ?thesis by blast
qed

text \<open>
  C4. Decode correctness. When the token URI of a token is
  \<^verbatim>\<open>data:image/svg+xml;base64,\<close> followed by a payload \<open>B\<close> (base64 text has no comma),
  every document a pass adds for that token has as \<^verbatim>\<open>svg\<close> the base64 and UTF-8
  decoding of \<open>B\<close>.
\<close>

theorem stored_svg_is_decoded_payload:
  assumes "d \<in> set (inserted w (snd (fetchAndStoreSVGs env w)))"
    and "map_of d ''tokenId'' = Some (Str (toString tokenId))"
    and "tokenURI (contract env) tokenId = Some (''data:image/svg+xml;base64,'' @ B)"
    and "CHR '','' \<notin> set B"
  shows "map_of d ''svg'' = Some (Str (b64_utf8 env B))"
proof -
  from fetch_added[of env w] obtain new where
    n: "db (snd (fetchAndStoreSVGs env w)) = (db w)(''svgs'' := db w ''svgs'' @ new)"
    and sh: "\<forall>d \<in> set new. \<exists>j tokenId uri payload t. j < totalSupply (contract env) \<and>
        tokenByIndex (contract env) j = Some tokenId \<and>
        tokenURI (contract env) tokenId = Some uri \<and>
        js_index (js_split CHR '','' uri) 1 = Some payload \<and>
        d = [(''tokenId'', Str (toString tokenId)), (''svg'', Str (b64_utf8 env payload)),
             (''createdAt'', Date t)]"
    by blast
  from n assms(1) have "d \<in> set new" by (simp add: inserted_def)
  with sh obtain t' uri payload t where
    u: "tokenURI (contract env) t' = Some uri"
    and p: "js_index (js_split CHR '','' uri) 1 = Some payload"
    and d: "d = [(''tokenId'', Str (toString t')), (''svg'', Str (b64_utf8 env payload)),
             (''createdAt'', Date t)]" by blast
  from d assms(2) have "toString t' = toString tokenId" by simp
  then have "t' = tokenId" by (rule toString_inj)
  with u assms(3) have uri: "uri = ''data:image/svg+xml;base64'' @ CHR '','' # B" by simp
  have "CHR '','' \<notin> set ''data:image/svg+xml;base64''" by simp
  from payload_of_data_uri[OF this assms(4)] p uri have "payload = B" by simp
  with d show ?thesis by simp
qed

theorem stored_svg_is_decoded_payload_witness:
  "[(''tokenId'', Str ''101''), (''svg'', Str ''hello''), (''createdAt'', Date 1007)]
     \<in> set (inserted empty_world (snd (fetchAndStoreSVGs example_env empty_world))) \<and>
   map_of [(''tokenId'', Str ''101''), (''svg'', Str ''hello''), (''createdAt'', Date (1007::nat))]
     ''tokenId'' = Some (Str (toString 101)) \<and>
   tokenURI (contract example_env) 101 = Some (''data:image/svg+xml;base64,'' @ ''aGVsbG8='') \<and>
   CHR '','' \<notin> set ''aGVsbG8='' \<and>
   map_of [(''tokenId'', Str ''101''), (''svg'', Str ''hello''), (''createdAt'', Date (1007::nat))]
     ''svg'' = Some (Str (b64_utf8 example_env ''aGVsbG8='')) \<and>
   b64_utf8 example_env ''aGVsbG8='' = ''hello''"
proof -
  have m: "[(''tokenId'', Str ''101''), (''svg'', Str ''hello''), (''createdAt'', Date 1007)]
     \<in> set (inserted empty_world (snd (fetchAndStoreSVGs example_env empty_world)))"
    by (simp add: eval_defs)
  have k: "map_of [(''tokenId'', Str ''101''), (''svg'', Str ''hello''), (''createdAt'', Date (1007::nat))]
     ''tokenId'' = Some (Str (toString 101))"
    by (simp add: toString.simps digit_def)
  have u: "tokenURI (contract example_env) 101 = Some (''data:image/svg+xml;base64,'' @ ''aGVsbG8='')"
    by (simp add: example_env_def example_contract_def)
  have c: "CHR '','' \<notin> set ''aGVsbG8=''" by simp
  have b: "b64_utf8 example_env ''aGVsbG8='' = ''hello''" by (simp add: example_env_def)
  from m k u c b stored_svg_is_decoded_payload[OF m k u c] show ?thesis by blast
qed

text \<open>
  C1, as written: after an error at index \<open>i\<close> the tick still attempts every index
  \<open>j > i\<close>. It fails on the code. In \<open>broken_env\<close> the body throws at index 1 (the
  token URI has no comma to split at), index 2 is below the total supply, and the
  tick never asks for the token at index 2.
\<close>

theorem error_aborts_rest_of_tick_counterexample:
  "fst (loop_body broken_env 1 broken_w3) = Inl TypeError \<and>
   2 < totalSupply (contract broken_env) \<and>
   RpcTokenByIndex 1 \<in> set (trace (snd (fetchAndStoreSVGs broken_env empty_world))) \<and>
   RpcTokenByIndex 2 \<notin> set (trace (snd (fetchAndStoreSVGs broken_env empty_world)))"
  by (simp add: eval_defs broken_w3_def broken_w2_def broken_w1_def)

text \<open>
  C1, amended. The \<^verbatim>\<open>try\<close> of \<^verbatim>\<open>fetchAndStoreSVGs\<close> encloses the whole loop. When
  the indices below \<open>i\<close> went through and the body throws at index \<open>i\<close>, the error is
  caught and logged, the function returns normally, and the tick ends in the world
  the throw left: no index \<open>j > i\<close> is attempted in that tick, and the database is the
  one the indices below \<open>i\<close> produced, so the records inserted for them stay.
\<close>

theorem error_ends_the_tick:
  assumes "getProvider env w = (Some p, w1)"
    and "call_totalSupply env w1 = (Inr tot, w2)"
    and "svg_loop env i 0 w2 = (Inr u, w3)"
    and "i < tot"
    and "loop_body env i w3 = (Inl e, w4)"
  shows "fetchAndStoreSVGs env w =
           (Inr (), console_error ''Error fetching and storing SVGs:'' (Some e) w4) \<and>
         (\<forall>j. i < j \<longrightarrow>
            RpcTokenByIndex j \<notin> set (new_events w (snd (fetchAndStoreSVGs env w)))) \<and>
         db (snd (fetchAndStoreSVGs env w)) = db w3"
proof -
  from assms(4) have "i \<le> tot" by simp
  from svg_loop_split[OF assms(3) refl _ this]
  have "svg_loop env tot 0 w2 = svg_loop env tot i w3" by simp
  also from assms(4,5) have "\<dots> = (Inl e, w4)" by (rule svg_loop_fail)
  finally have loop: "svg_loop env tot 0 w2 = (Inl e, w4)" .
  with assms(2) have "try_block env w1 = (Inl e, w4)"
    by (simp add: try_block_def await_def)
  with assms(1) have run: "fetchAndStoreSVGs env w =
      (Inr (), console_error ''Error fetching and storing SVGs:'' (Some e) w4)"
    by (simp add: fetchAndStoreSVGs_def)
  from getProvider_trace[OF assms(1)] obtain e1 where
    e1: "trace w1 = trace w @ e1" "\<forall>j. RpcTokenByIndex j \<notin> set e1" by blast
  from call_totalSupply_trace[OF assms(2)] have e2: "trace w2 = trace w1 @ [RpcTotalSupply]" .
  from svg_loop_trace[OF assms(3)] obtain e3 where
    e3: "trace w3 = trace w2 @ e3" "\<forall>j. RpcTokenByIndex j \<in> set e3 \<longrightarrow> 0 \<le> j \<and> j < i" by blast
  from loop_body_trace[OF assms(5)] obtain e4 where
    e4: "trace w4 = trace w3 @ e4" "\<forall>j. RpcTokenByIndex j \<in> set e4 \<longrightarrow> j = i" by blast
  from run e1(1) e2 e3(1) e4(1)
  have "new_events w (snd (fetchAndStoreSVGs env w)) =
      e1 @ [RpcTotalSupply] @ e3 @ e4 @ [Console Err ''Error fetching and storing SVGs:'' (Some e)]"
    by (simp add: new_events_def)
  with e1(2) e3(2) e4(2) have later: "\<forall>j. i < j \<longrightarrow>
      RpcTokenByIndex j \<notin> set (new_events w (snd (fetchAndStoreSVGs env w)))"
    by auto
  from loop_body_cases[OF assms(5)] have "db w4 = db w3" by auto
  with run have "db (snd (fetchAndStoreSVGs env w)) = db w3" by simp
  with run later show ?thesis by blast
qed

theorem error_ends_the_tick_witness:
  "getProvider broken_env empty_world = (Some (), broken_w1) \<and>
   call_totalSupply broken_env broken_w1 = (Inr 3, broken_w2) \<and>
   svg_loop broken_env 1 0 broken_w2 = (Inr (), broken_w3) \<and>
   (1::nat) < 3 \<and>
   loop_body broken_env 1 broken_w3 = (Inl TypeError, broken_w4) \<and>
   fetchAndStoreSVGs broken_env empty_world =
     (Inr (), console_error ''Error fetching and storing SVGs:'' (Some TypeError) broken_w4) \<and>
   RpcTokenByIndex 2 \<notin> set (new_events empty_world (snd (fetchAndStoreSVGs broken_env empty_world))) \<and>
   db (snd (fetchAndStoreSVGs broken_env empty_world)) = db broken_w3 \<and>
   db broken_w3 ''svgs'' =
     [[(''tokenId'', Str ''101''), (''svg'', Str ''hello''), (''createdAt'', Date 1007)]] \<and>
   db (snd (fetchAndStoreSVGs broken_env empty_world)) ''svgs'' =
     [[(''tokenId'', Str ''101''), (''svg'', Str ''hello''), (''createdAt'', Date 1007)]]"
proof -
  have a: "getProvider broken_env empty_world = (Some (), broken_w1)"
    by (simp add: prod_eq_iff broken_w1_def) (simp add: eval_defs)
  have b: "call_totalSupply broken_env broken_w1 = (Inr 3, broken_w2)"
    by (simp add: prod_eq_iff broken_w2_def) (simp add: eval_defs broken_w1_def)
  have c: "svg_loop broken_env 1 0 broken_w2 = (Inr (), broken_w3)"
    by (simp add: prod_eq_iff broken_w3_def)
       (simp add: eval_defs broken_w2_def broken_w1_def)
  have d: "(1::nat) < 3" by simp
  have e: "loop_body broken_env 1 broken_w3 = (Inl TypeError, broken_w4)"
    by (simp add: prod_eq_iff broken_w4_def)
       (simp add: eval_defs broken_w3_def broken_w2_def broken_w1_def)
  note t = error_ends_the_tick[OF a b c d e]
  from t have "(1::nat) < 2 \<longrightarrow> RpcTokenByIndex 2
      \<notin> set (new_events empty_world (snd (fetchAndStoreSVGs broken_env empty_world)))"
    by blast
  then have "RpcTokenByIndex 2
      \<notin> set (new_events empty_world (snd (fetchAndStoreSVGs broken_env empty_world)))"
    by simp
  moreover have "db broken_w3 ''svgs'' =
     [[(''tokenId'', Str ''101''), (''svg'', Str ''hello''), (''createdAt'', Date 1007)]]"
    by (simp add: eval_defs broken_w3_def broken_w2_def broken_w1_def)
  moreover have "db (snd (fetchAndStoreSVGs broken_env empty_world)) ''svgs'' =
     [[(''tokenId'', Str ''101''), (''svg'', Str ''hello''), (''createdAt'', Date 1007)]]"
    by (simp add: eval_defs)
  ultimately show ?thesis using t a b c d e by blast
qed

text \<open>
  C9. \<^verbatim>\<open>GET /fetch-svgs\<close> is claimed to respond with status 500 when the pass fails
  as a whole. Here the pass fails at its first read, \<^verbatim>\<open>totalSupply\<close>, and logs the
  error; the handler then responds with status 200 and the message body. The pass
  did run to its end before the response.
\<close>

theorem fetch_svgs_replies_200_after_failed_pass:
  "new_events empty_world (route_fetch_svgs flaky_env empty_world) =
     [RpcGetNetwork,
      Console Info ''Connected to the network'' None,
      RpcTotalSupply,
      Console Err ''Error fetching and storing SVGs:'' (Some NetworkError),
      Respond 200 (Obj [(''message'', Str ''SVG fetch process initiated'')])]"
  by (simp add: route_fetch_svgs_def res_json_def eval_defs)

text \<open>
  C6. Last write wins. With a store that accepts both upserts and a \<^verbatim>\<open>catTexts\<close>
  collection that has at most one document for the key (which the Listener
  maintains, see \<open>on_TextSet_keeps_keys_unique\<close>), the events \<open>(id, a)\<close> and then
  \<open>(id, b)\<close> leave exactly one document keyed by the decimal string of \<open>id\<close>, and
  its \<^verbatim>\<open>text\<close> is \<open>b\<close>.
\<close>

theorem last_text_wins:
  assumes "\<forall>n. \<not> faults env n"
    and "length (keyed (toString tokenId) (db w ''catTexts'')) \<le> 1"
  shows "\<exists>d. keyed (toString tokenId)
           (db (on_TextSet env tokenId b (on_TextSet env tokenId a w)) ''catTexts'') = [d] \<and>
         map_of d ''text'' = Some (Str b)"
proof -
  let ?w1 = "on_TextSet env tokenId a w"
  from assms(1) have f1: "\<not> faults env (Suc (length (trace w)))"
    and f2: "\<not> faults env (Suc (length (trace ?w1)))" by simp_all
  from on_TextSet_keyed[OF f1, of tokenId a] assms(2)
  have one: "length (keyed (toString tokenId) (db ?w1 ''catTexts'')) = 1" by auto
  from on_TextSet_keyed[OF f2, of tokenId b] one show ?thesis by auto
qed

theorem last_text_wins_witness:
  "(\<forall>n. \<not> faults example_env n) \<and>
   length (keyed (toString 5) (db empty_world ''catTexts'')) \<le> 1 \<and>
   (\<exists>d. keyed (toString 5)
           (db (on_TextSet example_env 5 ''b'' (on_TextSet example_env 5 ''a'' empty_world))
              ''catTexts'') = [d] \<and>
         map_of d ''text'' = Some (Str ''b'')) \<and>
   db (on_TextSet example_env 5 ''b'' (on_TextSet example_env 5 ''a'' empty_world)) ''catTexts''
     = [[(''tokenId'', Str ''5''), (''text'', Str ''b'')]]"
proof -
  have f: "\<forall>n. \<not> faults example_env n" by (simp add: example_env_def)
  have k: "length (keyed (toString 5) (db empty_world ''catTexts'')) \<le> 1"
    by (simp add: keyed_def empty_world_def)
  have v: "db (on_TextSet example_env 5 ''b'' (on_TextSet example_env 5 ''a'' empty_world)) ''catTexts''
     = [[(''tokenId'', Str ''5''), (''text'', Str ''b'')]]"
    by (simp add: on_TextSet_def updateOne_def console_log_def console_error_def emit_def
        set_fields_def eval_defs)
  from f k v last_text_wins[OF f k, where a="''a''" and b="''b''"] show ?thesis by blast
qed

end
